theory Spec2Isabelle
  imports Complex_Main "HOL-Library.AList"
begin

section \<open>Python strings\<close>

text \<open>
  A Python \<^verbatim>\<open>str\<close> is a sequence of Unicode code points and \<^verbatim>\<open>len\<close> counts code
  points, so a string is modelled as a list of code points (natural numbers).
  \<open>str\<close> turns an ASCII literal into such a list.
\<close>

type_synonym py_str = "nat list"

definition str :: "string \<Rightarrow> py_str" where
  "str s = map of_char s"

text \<open>The three sentence delimiters and the blank, as code points.\<close>

definition DOT :: nat where "DOT = 46"
definition BANG :: nat where "BANG = 33"
definition QMARK :: nat where "QMARK = 63"
definition SPACE :: nat where "SPACE = 32"

text \<open>
  \<^verbatim>\<open>str.isspace\<close> for one character: the code points CPython's
  \<^verbatim>\<open>Py_UNICODE_ISSPACE\<close> accepts. \<^verbatim>\<open>str.strip()\<close> without argument removes
  exactly these from both ends.
\<close>

definition isspace :: "nat \<Rightarrow> bool" where
  "isspace c \<longleftrightarrow>
     (9 \<le> c \<and> c \<le> 13) \<or> (28 \<le> c \<and> c \<le> 32) \<or> c = 133 \<or> c = 160 \<or> c = 5760 \<or>
     (8192 \<le> c \<and> c \<le> 8202) \<or> c = 8232 \<or> c = 8233 \<or> c = 8239 \<or> c = 8287 \<or> c = 12288"

definition lstrip :: "py_str \<Rightarrow> py_str" where
  "lstrip s = dropWhile isspace s"

definition rstrip :: "py_str \<Rightarrow> py_str" where
  "rstrip s = rev (dropWhile isspace (rev s))"

definition strip :: "py_str \<Rightarrow> py_str" where
  "strip s = rstrip (lstrip s)"

text \<open>\<^verbatim>\<open>s.replace(old, new)\<close> where \<^verbatim>\<open>old\<close> and \<^verbatim>\<open>new\<close> are single characters.\<close>

definition replace :: "nat \<Rightarrow> nat \<Rightarrow> py_str \<Rightarrow> py_str" where
  "replace old new s = map (\<lambda>c. if c = old then new else c) s"

text \<open>
  \<^verbatim>\<open>s.split(sep)\<close> for a single-character separator: \<open>n\<close> occurrences of the
  separator give \<open>n + 1\<close> pieces, empty pieces included. \<open>split_from\<close> carries the
  piece read so far.
\<close>

fun split_from :: "nat \<Rightarrow> py_str \<Rightarrow> py_str \<Rightarrow> py_str list" where
  "split_from sep cur [] = [cur]"
| "split_from sep cur (c # cs) =
     (if c = sep then cur # split_from sep [] cs else split_from sep (cur @ [c]) cs)"

definition split :: "nat \<Rightarrow> py_str \<Rightarrow> py_str list" where
  "split sep s = split_from sep [] s"

text \<open>\<^verbatim>\<open>s.endswith(suffix)\<close> and \<^verbatim>\<open>s.endswith((suffix1, suffix2, ...))\<close>.\<close>

definition endswith :: "py_str \<Rightarrow> py_str \<Rightarrow> bool" where
  "endswith s suffix \<longleftrightarrow> length suffix \<le> length s \<and> drop (length s - length suffix) s = suffix"

definition endswith_any :: "py_str \<Rightarrow> py_str list \<Rightarrow> bool" where
  "endswith_any s suffixes \<longleftrightarrow> list_ex (endswith s) suffixes"

section \<open>The text segmenter: \<^verbatim>\<open>chunk_text\<close>\<close>

text \<open>
  The body of the \<^verbatim>\<open>for sentence in sentences\<close> loop, on the pair
  \<open>(chunks, current_chunk)\<close>. A Python string is true when it is not empty.
\<close>

fun chunk_loop :: "int \<Rightarrow> py_str list \<Rightarrow> py_str list \<times> py_str \<Rightarrow> py_str list \<times> py_str" where
  "chunk_loop max_chars [] (chunks, current_chunk) = (chunks, current_chunk)"
| "chunk_loop max_chars (sentence0 # rest) (chunks, current_chunk) =
     (let sentence = strip sentence0 in
      if sentence = [] then chunk_loop max_chars rest (chunks, current_chunk)
      else if int (length current_chunk) + int (length sentence) + 2 \<le> max_chars
      then chunk_loop max_chars rest (chunks, current_chunk @ sentence @ str ''. '')
      else chunk_loop max_chars rest
             (if current_chunk \<noteq> [] then chunks @ [strip current_chunk] else chunks,
              sentence @ str ''. ''))"

definition chunk_text :: "py_str \<Rightarrow> int \<Rightarrow> py_str list" where
  "chunk_text text max_chars =
     (if int (length text) \<le> max_chars then [text]
      else
        let sentences = split DOT (replace QMARK DOT (replace BANG DOT text));
            (chunks, current_chunk) = chunk_loop max_chars sentences ([], []);
            chunks = (if current_chunk \<noteq> [] then chunks @ [strip current_chunk] else chunks)
        in if chunks \<noteq> [] then chunks else [text])"

text \<open>
  The sentences the loop works on: the pieces of the split, stripped, the empty ones
  skipped (\<^verbatim>\<open>sentence = sentence.strip(); if not sentence: continue\<close>).
\<close>

definition sentences :: "py_str \<Rightarrow> py_str list" where
  "sentences text =
     filter (\<lambda>s. s \<noteq> []) (map strip (split DOT (replace QMARK DOT (replace BANG DOT text))))"

subsection \<open>The loop seen on groups of sentences\<close>

text \<open>
  For the proofs the loop is read on lists of sentences instead of strings: \<open>acc g\<close> is
  the value of \<^verbatim>\<open>current_chunk\<close> after the sentences \<open>g\<close> were appended to an empty
  one, \<open>render g\<close> the chunk that is emitted for it, \<open>joined g\<close> the same chunk written
  out, and \<open>group_loop\<close> runs the loop of \<open>chunk_loop\<close> on these groups.
\<close>

definition acc :: "py_str list \<Rightarrow> py_str" where
  "acc g = concat (map (\<lambda>s. s @ str ''. '') g)"

definition render :: "py_str list \<Rightarrow> py_str" where
  "render g = strip (acc g)"

fun joined :: "py_str list \<Rightarrow> py_str" where
  "joined [] = []"
| "joined [s] = s @ [DOT]"
| "joined (s # rest) = s @ [DOT, SPACE] @ joined rest"

fun group_loop ::
  "int \<Rightarrow> py_str list \<Rightarrow> py_str list list \<times> py_str list \<Rightarrow> py_str list list \<times> py_str list" where
  "group_loop max_chars [] (groups, g) = (groups, g)"
| "group_loop max_chars (s # rest) (groups, g) =
     (if int (length (acc g)) + int (length s) + 2 \<le> max_chars
      then group_loop max_chars rest (groups, g @ [s])
      else group_loop max_chars rest (if g \<noteq> [] then groups @ [g] else groups, [s]))"

definition groups_of :: "int \<Rightarrow> py_str list \<Rightarrow> py_str list list" where
  "groups_of max_chars ss =
     (case group_loop max_chars ss ([], []) of (groups, g) \<Rightarrow>
        if g \<noteq> [] then groups @ [g] else groups)"

text \<open>
  What the loop guarantees of a group: its accumulated text fits, or it is one
  sentence that does not fit even alone with its two-character separator.
\<close>

definition bnd :: "int \<Rightarrow> py_str list \<Rightarrow> bool" where
  "bnd m g \<longleftrightarrow> int (length (acc g)) \<le> m \<or> (\<exists>s. g = [s] \<and> m < int (length s) + 2)"

text \<open>A stripped, non-empty piece of the split: no blank at either end, no delimiter inside.\<close>

definition good :: "py_str \<Rightarrow> bool" where
  "good s \<longleftrightarrow> s \<noteq> [] \<and> \<not> isspace (hd s) \<and> \<not> isspace (last s) \<and>
     DOT \<notin> set s \<and> BANG \<notin> set s \<and> QMARK \<notin> set s"

section \<open>The service: data\<close>

text \<open>
  Sample values. \<^verbatim>\<open>librosa.load\<close> returns finite samples, modelled as rationals
  (rounding to 32-bit floats is left out). The result of numpy's division is a float
  that can also be \<^verbatim>\<open>nan\<close> or an infinity: numpy's true division of floats never
  raises, a zero divisor gives \<^verbatim>\<open>nan\<close> (for \<open>0 / 0\<close>) or a signed infinity, with a
  warning only.
\<close>

datatype sample = Num rat | NaN | PosInf | NegInf

definition np_divide :: "rat \<Rightarrow> rat \<Rightarrow> sample" where
  "np_divide a b =
     (if b \<noteq> 0 then Num (a / b)
      else if a = 0 then NaN
      else if 0 < a then PosInf else NegInf)"

text \<open>
  Python exceptions. \<open>HTTPException status_code detail\<close> is FastAPI's;
  \<open>ValueError\<close> is what \<^verbatim>\<open>np.max\<close> raises on an empty array, \<open>IndexError\<close> what
  \<^verbatim>\<open>audio_segments[0]\<close> raises on an empty list, \<open>LoadError path\<close> what
  \<^verbatim>\<open>torch.load\<close> raises when the file is missing or holds no tensor, and
  \<open>LibraryError e\<close> any exception \<open>e\<close> raised inside \<^verbatim>\<open>librosa.load\<close> or the
  inference engine. None of the last four is an \<^verbatim>\<open>HTTPException\<close>.
\<close>

datatype exn =
    HTTPException int py_str
  | ValueError
  | IndexError
  | LoadError py_str
  | LibraryError py_str

text \<open>A voice profile, the value stored under a voice name (lines 148--154); \<open>audio_file\<close>
  is the key \<^verbatim>\<open>"file"\<close> and \<open>profile_id\<close> the key \<^verbatim>\<open>"id"\<close>.\<close>

record profile =
  profile_id :: py_str
  audio_file :: py_str
  codes_file :: py_str
  reference_text :: "py_str option"
  original_filename :: py_str

text \<open>
  What a path of the local file system holds: the raw bytes of an upload, an audio
  file as \<^verbatim>\<open>soundfile.write\<close> made it (\<open>'w\<close>: the samples are converted to the
  format of the file, 16-bit PCM for the default \<^verbatim>\<open>.wav\<close>, so it is not the list of
  samples that was passed), or an encoding saved by \<^verbatim>\<open>torch.save\<close>.
\<close>

datatype ('c, 'w) content = Upload | Audio 'w | Codes 'c

text \<open>
  The state of the process: the engine behind the global \<^verbatim>\<open>tts\<close>, the global
  dictionary \<^verbatim>\<open>voice_profiles\<close>, the parsed content of \<^verbatim>\<open>profiles.json\<close>, and the
  other files on disk. A Python dictionary keeps its keys in insertion order and
  \<^verbatim>\<open>list_voices\<close> iterates over it, so it is an association list: \<^verbatim>\<open>d[k] = v\<close> is
  \<open>AList.update k v\<close> (in place for a key that is present, at the end otherwise),
  \<^verbatim>\<open>del d[k]\<close> is \<open>AList.delete k\<close>, \<^verbatim>\<open>k in d\<close> is \<open>map_of d k \<noteq> None\<close>.
  The engine is taken as already constructed (the startup event calls
  \<^verbatim>\<open>init_tts\<close>). Writing the upload, the encoding and \<^verbatim>\<open>profiles.json\<close>, and removing
  a file, are taken to succeed; \<^verbatim>\<open>soundfile.write\<close> is a call that can raise.
\<close>

record ('e, 'c, 'w) server =
  tts :: 'e
  voice_profiles :: "(py_str \<times> profile) list"
  profiles_json :: "(py_str \<times> profile) list"
  disk :: "py_str \<rightharpoonup> ('c, 'w) content"

text \<open>
  What the handlers call outside this repository. The two methods of the engine may
  change the engine and may raise (\<open>Inl e\<close>); \<open>encode_reference\<close> is given the path
  of the audio file and reads what the disk holds there. \<open>sf_write path data\<close> is
  \<^verbatim>\<open>soundfile.write(path, data, 24000)\<close>: it raises (for instance when the name gives
  no format, as \<^verbatim>\<open>.wav\<close> alone, or the directory is missing) or returns the content
  of the file it wrote. The last two are Python's \<^verbatim>\<open>str(e)\<close> of an exception and
  \<^verbatim>\<open>str\<close> of a list of strings, both used in messages.
\<close>

record ('e, 'c, 'w) externals =
  encode_reference :: "'e \<Rightarrow> py_str \<Rightarrow> ('c, 'w) content option \<Rightarrow> 'e \<times> (py_str + 'c)"
  infer :: "'e \<Rightarrow> py_str \<Rightarrow> 'c \<Rightarrow> py_str option \<Rightarrow> 'e \<times> (py_str + sample list)"
  sf_write :: "py_str \<Rightarrow> sample list \<Rightarrow> py_str + 'w"
  exn_str :: "exn \<Rightarrow> py_str"
  list_str :: "py_str list \<Rightarrow> py_str"

record clone_response =
  clone_status :: py_str
  clone_message :: py_str
  clone_voice_id :: py_str
  clone_voice_name :: py_str

record file_response =
  response_path :: py_str
  response_media_type :: py_str
  response_filename :: py_str

record voice_entry =
  entry_name :: py_str
  entry_id :: py_str
  entry_original_file :: py_str
  entry_has_reference_text :: bool

record delete_response =
  delete_status :: py_str
  delete_message :: py_str

definition VOICES_DIR :: py_str where "VOICES_DIR = str ''/app/voices''"
definition OUTPUTS_DIR :: py_str where "OUTPUTS_DIR = str ''/app/outputs''"

text \<open>\<^verbatim>\<open>directory / name\<close> of \<^verbatim>\<open>pathlib\<close>, as a string: an absolute name replaces the directory.\<close>

definition path_join :: "py_str \<Rightarrow> py_str \<Rightarrow> py_str" where
  "path_join dir name =
     (if name \<noteq> [] \<and> hd name = 47 then name else dir @ str ''/'' @ name)"

text \<open>
  \<^verbatim>\<open>str.lower\<close> on the ASCII letters. A character outside ASCII is left as it is:
  Python maps none of them to a character of the five suffixes tested below, so
  the test gives the same answer.
\<close>

definition lower :: "py_str \<Rightarrow> py_str" where
  "lower s = map (\<lambda>c. if 65 \<le> c \<and> c \<le> 90 then c + 32 else c) s"

definition audio_suffixes :: "py_str list" where
  "audio_suffixes = [str ''.wav'', str ''.mp3'', str ''.flac'', str ''.ogg'', str ''.webm'']"

section \<open>The service: handlers\<close>

text \<open>\<^verbatim>\<open>save_voice_profiles\<close>: the whole dictionary is written to \<^verbatim>\<open>profiles.json\<close>.\<close>

definition save_voice_profiles :: "('e, 'c, 'w) server \<Rightarrow> ('e, 'c, 'w) server" where
  "save_voice_profiles st = st\<lparr>profiles_json := voice_profiles st\<rparr>"

text \<open>
  Line 128, \<^verbatim>\<open>audio / np.max(np.abs(audio))\<close>: \<^verbatim>\<open>np.max\<close> raises on an empty array;
  the division is done whatever the peak is.
\<close>

definition normalize_audio :: "rat list \<Rightarrow> exn + sample list" where
  "normalize_audio audio =
     (if audio = [] then Inl ValueError
      else let peak = Max (set (map abs audio)) in Inr (map (\<lambda>a. np_divide a peak) audio))"

text \<open>
  The body of the \<^verbatim>\<open>try\<close> of \<^verbatim>\<open>clone_voice\<close> (lines 110--162). \<open>decoded\<close> is what
  \<^verbatim>\<open>librosa.load\<close> makes of the uploaded bytes (\<open>Inl e\<close>: it raises), \<open>uuid\<close> the
  value of \<^verbatim>\<open>str(uuid.uuid4())\<close>. Line 131 writes the normalised samples with
  \<open>sf_write\<close>; line 140 gives the engine the path of that file.
\<close>

definition clone_body ::
  "('e, 'c, 'w) externals \<Rightarrow> ('e, 'c, 'w) server \<Rightarrow> py_str \<Rightarrow> py_str + rat list \<Rightarrow> py_str \<Rightarrow>
   py_str \<Rightarrow> py_str option \<Rightarrow> ('e, 'c, 'w) server \<times> (exn + clone_response)" where
  "clone_body ext st file_name decoded uuid v_name ref_text =
     (if \<not> endswith_any (lower file_name) audio_suffixes
      then (st, Inl (HTTPException 400
              (str ''Only audio files are supported (wav, mp3, flac, ogg, webm)'')))
      else
        let temp_path = path_join VOICES_DIR (uuid @ str ''_temp'');
            file_path = path_join VOICES_DIR (uuid @ str ''.wav'');
            st1 = st\<lparr>disk := (disk st)(temp_path \<mapsto> Upload)\<rparr>
        in case decoded of
             Inl e \<Rightarrow> (st1, Inl (LibraryError e))
           | Inr audio0 \<Rightarrow>
               (case normalize_audio audio0 of
                  Inl e \<Rightarrow> (st1, Inl e)
                | Inr audio \<Rightarrow>
                    (case sf_write ext file_path audio of
                       Inl e \<Rightarrow> (st1, Inl (LibraryError e))
                     | Inr written \<Rightarrow>
                    let st2 = st1\<lparr>disk := ((disk st1)(file_path \<mapsto> Audio written))(temp_path := None)\<rparr>
                    in case encode_reference ext (tts st2) file_path (disk st2 file_path) of
                         (e', Inl e) \<Rightarrow> (st2\<lparr>tts := e'\<rparr>, Inl (LibraryError e))
                       | (e', Inr ref_codes) \<Rightarrow>
                           let codes_path = path_join VOICES_DIR (uuid @ str ''_codes.pt'');
                               st3 = st2\<lparr>tts := e', disk := (disk st2)(codes_path \<mapsto> Codes ref_codes)\<rparr>;
                               st4 = st3\<lparr>voice_profiles :=
                                       AList.update v_name
                                         \<lparr>profile_id = uuid, audio_file = file_path, codes_file = codes_path,
                                          reference_text = ref_text, original_filename = file_name\<rparr>
                                         (voice_profiles st3)\<rparr>
                           in (save_voice_profiles st4,
                               Inr \<lparr>clone_status = str ''success'',
                                    clone_message = str ''Voice '' @ [39] @ v_name @ [39] @ str '' cloned successfully'',
                                    clone_voice_id = uuid, clone_voice_name = v_name\<rparr>))))"

text \<open>
  \<^verbatim>\<open>clone_voice\<close>: the only handler clause is \<^verbatim>\<open>except Exception as e\<close> (lines
  164--165), and \<^verbatim>\<open>HTTPException\<close> is an \<^verbatim>\<open>Exception\<close>: every exception of the body,
  the handler's own 400 included, leaves as a 500.
\<close>

definition clone_voice ::
  "('e, 'c, 'w) externals \<Rightarrow> ('e, 'c, 'w) server \<Rightarrow> py_str \<Rightarrow> py_str + rat list \<Rightarrow> py_str \<Rightarrow>
   py_str \<Rightarrow> py_str option \<Rightarrow> ('e, 'c, 'w) server \<times> (exn + clone_response)" where
  "clone_voice ext st file_name decoded uuid v_name ref_text =
     (case clone_body ext st file_name decoded uuid v_name ref_text of
        (st', Inl e) \<Rightarrow> (st', Inl (HTTPException 500 (str ''Error cloning voice: '' @ exn_str ext e)))
      | (st', Inr r) \<Rightarrow> (st', Inr r))"

text \<open>
  The registry lookup of \<^verbatim>\<open>generate_speech\<close> (lines 212--213 and 219), the only
  lookup by name the service has.
\<close>

definition lookup_voice ::
  "('e, 'c, 'w) externals \<Rightarrow> ('e, 'c, 'w) server \<Rightarrow> py_str \<Rightarrow> exn + profile" where
  "lookup_voice ext st v_name =
     (case map_of (voice_profiles st) v_name of
        None \<Rightarrow> Inl (HTTPException 404
                  (str ''Voice '' @ [39] @ v_name @ [39] @ str '' not found. Available voices: '' @
                   list_str ext (map fst (voice_profiles st))))
      | Some p \<Rightarrow> Inr p)"

text \<open>\<^verbatim>\<open>torch.load(profile["codes_file"])\<close>.\<close>

definition torch_load :: "('e, 'c, 'w) server \<Rightarrow> py_str \<Rightarrow> exn + 'c" where
  "torch_load st p = (case disk st p of Some (Codes c) \<Rightarrow> Inr c | _ \<Rightarrow> Inl (LoadError p))"

text \<open>
  The loop of lines 230--233: one call of the engine for each chunk, in order; the
  first call that raises ends the loop.
\<close>

fun infer_chunks ::
  "('e, 'c, 'w) externals \<Rightarrow> 'e \<Rightarrow> py_str list \<Rightarrow> 'c \<Rightarrow> py_str option \<Rightarrow> sample list list \<Rightarrow>
   'e \<times> (exn + sample list list)" where
  "infer_chunks ext e [] ref_codes ref_text audio_segments = (e, Inr audio_segments)"
| "infer_chunks ext e (chunk # rest) ref_codes ref_text audio_segments =
     (case infer ext e chunk ref_codes ref_text of
        (e', Inl x) \<Rightarrow> (e', Inl (LibraryError x))
      | (e', Inr chunk_wav) \<Rightarrow>
          infer_chunks ext e' rest ref_codes ref_text (audio_segments @ [chunk_wav]))"

text \<open>Lines 236--239: \<^verbatim>\<open>np.concatenate\<close> for more than one segment, else the first one.\<close>

definition concatenate_segments :: "sample list list \<Rightarrow> exn + sample list" where
  "concatenate_segments audio_segments =
     (if 1 < length audio_segments then Inr (concat audio_segments)
      else case audio_segments of [] \<Rightarrow> Inl IndexError | w # _ \<Rightarrow> Inr w)"

text \<open>Lines 242--245: the name of the output file.\<close>

definition output_name :: "py_str option \<Rightarrow> py_str \<Rightarrow> py_str" where
  "output_name output_filename uuid =
     (case output_filename of
        None \<Rightarrow> uuid @ str ''.wav''
      | Some n \<Rightarrow> if \<not> endswith n (str ''.wav'') then n @ str ''.wav'' else n)"

text \<open>
  The body of the \<^verbatim>\<open>try\<close> of \<^verbatim>\<open>generate_speech\<close> (lines 211--254); \<open>uuid\<close> is the
  value of \<^verbatim>\<open>uuid.uuid4()\<close> that names the output when no name is given. Line 248
  writes the waveform with \<open>sf_write\<close>, inside the \<^verbatim>\<open>try\<close>: when it raises, no file is
  written and the request ends as the 500 of the handler.
\<close>

definition generate_body ::
  "('e, 'c, 'w) externals \<Rightarrow> ('e, 'c, 'w) server \<Rightarrow> py_str \<Rightarrow> py_str \<Rightarrow> py_str option \<Rightarrow> py_str \<Rightarrow>
   ('e, 'c, 'w) server \<times> (exn + file_response)" where
  "generate_body ext st text v_name output_filename uuid =
     (case lookup_voice ext st v_name of
        Inl e \<Rightarrow> (st, Inl e)
      | Inr p \<Rightarrow>
          (case torch_load st (codes_file p) of
             Inl e \<Rightarrow> (st, Inl e)
           | Inr ref_codes \<Rightarrow>
               (case infer_chunks ext (tts st) (chunk_text text 200) ref_codes (reference_text p) [] of
                  (e', Inl e) \<Rightarrow> (st\<lparr>tts := e'\<rparr>, Inl e)
                | (e', Inr audio_segments) \<Rightarrow>
                    (case concatenate_segments audio_segments of
                       Inl e \<Rightarrow> (st\<lparr>tts := e'\<rparr>, Inl e)
                     | Inr wav \<Rightarrow>
                         let out_name = output_name output_filename uuid;
                             output_path = path_join OUTPUTS_DIR out_name
                         in case sf_write ext output_path wav of
                              Inl e \<Rightarrow> (st\<lparr>tts := e'\<rparr>, Inl (LibraryError e))
                            | Inr written \<Rightarrow>
                                (st\<lparr>tts := e', disk := (disk st)(output_path \<mapsto> Audio written)\<rparr>,
                                 Inr \<lparr>response_path = output_path,
                                      response_media_type = str ''audio/wav'',
                                      response_filename = out_name\<rparr>)))))"

text \<open>
  \<^verbatim>\<open>generate_speech\<close>: \<^verbatim>\<open>except HTTPException: raise\<close> lets the 404 pass, every
  other exception leaves as a 500 (lines 256--259).
\<close>

definition generate_speech ::
  "('e, 'c, 'w) externals \<Rightarrow> ('e, 'c, 'w) server \<Rightarrow> py_str \<Rightarrow> py_str \<Rightarrow> py_str option \<Rightarrow> py_str \<Rightarrow>
   ('e, 'c, 'w) server \<times> (exn + file_response)" where
  "generate_speech ext st text v_name output_filename uuid =
     (case generate_body ext st text v_name output_filename uuid of
        (st', Inl (HTTPException c d)) \<Rightarrow> (st', Inl (HTTPException c d))
      | (st', Inl e) \<Rightarrow>
          (st', Inl (HTTPException 500 (str ''Error generating speech: '' @ exn_str ext e)))
      | (st', Inr r) \<Rightarrow> (st', Inr r))"

text \<open>\<^verbatim>\<open>list_voices\<close> (lines 261--274): one entry for each item of the dictionary, in its order.\<close>

definition list_voices :: "('e, 'c, 'w) server \<Rightarrow> voice_entry list" where
  "list_voices st =
     map (\<lambda>(n, p). \<lparr>entry_name = n, entry_id = profile_id p,
                     entry_original_file = original_filename p,
                     entry_has_reference_text = (reference_text p \<noteq> None)\<rparr>)
       (voice_profiles st)"

text \<open>
  \<^verbatim>\<open>delete_voice\<close> (lines 276--296): the two files of the profile are removed when
  they exist, then the entry.
\<close>

definition delete_voice ::
  "('e, 'c, 'w) server \<Rightarrow> py_str \<Rightarrow> ('e, 'c, 'w) server \<times> (exn + delete_response)" where
  "delete_voice st v_name =
     (case map_of (voice_profiles st) v_name of
        None \<Rightarrow> (st, Inl (HTTPException 404 (str ''Voice '' @ [39] @ v_name @ [39] @ str '' not found'')))
      | Some p \<Rightarrow>
          let st1 = st\<lparr>disk := ((disk st)(audio_file p := None))(codes_file p := None)\<rparr>;
              st2 = st1\<lparr>voice_profiles := AList.delete v_name (voice_profiles st1)\<rparr>
          in (save_voice_profiles st2,
              Inr \<lparr>delete_status = str ''success'',
                   delete_message = str ''Voice '' @ [39] @ v_name @ [39] @ str '' deleted''\<rparr>))"

text \<open>
  The states of the registry: at startup \<^verbatim>\<open>voice_profiles\<close> is \<^verbatim>\<open>{}\<close> or what
  \<^verbatim>\<open>json.load\<close> returned, a Python dictionary, so its keys are pairwise distinct;
  then every clone, delete or generate request is a step.
\<close>

inductive reachable :: "('e, 'c, 'w) externals \<Rightarrow> ('e, 'c, 'w) server \<Rightarrow> bool" for ext where
  startup: "distinct (map fst (voice_profiles st)) \<Longrightarrow> reachable ext st"
| create: "reachable ext st \<Longrightarrow>
     reachable ext (fst (clone_voice ext st file_name decoded uuid v_name ref_text))"
| delete: "reachable ext st \<Longrightarrow> reachable ext (fst (delete_voice st v_name))"
| generate: "reachable ext st \<Longrightarrow>
     reachable ext (fst (generate_speech ext st text v_name output_filename uuid))"

section \<open>Runs of the engine and test doubles\<close>

text \<open>
  \<open>engine_run ext ref_codes ref_text e chunks ws e'\<close>: called on the chunks in order,
  starting in state \<open>e\<close>, the engine returns the waveforms \<open>ws\<close>, one for each chunk,
  and is left in state \<open>e'\<close>.
\<close>

fun engine_run ::
  "('e, 'c, 'w) externals \<Rightarrow> 'c \<Rightarrow> py_str option \<Rightarrow> 'e \<Rightarrow> py_str list \<Rightarrow> sample list list \<Rightarrow> 'e \<Rightarrow> bool" where
  "engine_run ext ref_codes ref_text e [] ws e' \<longleftrightarrow> ws = [] \<and> e' = e"
| "engine_run ext ref_codes ref_text e (chunk # rest) ws e' \<longleftrightarrow>
     (case (infer ext e chunk ref_codes ref_text, ws) of
        ((e1, Inr w1), w # ws') \<Rightarrow> w1 = w \<and> engine_run ext ref_codes ref_text e1 rest ws' e'
      | _ \<Rightarrow> False)"

text \<open>
  A test double for the engine. Its state counts the calls of \<open>infer\<close>; the call
  number \<open>fail_at\<close> raises, every other call returns a waveform that tells the call
  number and the length of the chunk. \<open>sf_write\<close> refuses a file named \<^verbatim>\<open>.wav\<close>
  alone and otherwise stores the samples with \<^verbatim>\<open>nan\<close> replaced by zero;
  \<open>encode_reference\<close> returns the number of samples of the audio file it finds.
\<close>

definition double_ext :: "nat \<Rightarrow> (nat, nat, sample list) externals" where
  "double_ext fail_at =
     \<lparr>encode_reference = (\<lambda>e p c. (e, case c of Some (Audio w) \<Rightarrow> Inr (length w)
                                        | _ \<Rightarrow> Inl (str ''no audio file''))),
      infer = (\<lambda>e chunk ref_codes ref_text.
                 (Suc e, if Suc e = fail_at then Inl (str ''engine failure'')
                         else Inr [Num (of_nat (Suc e)), Num (of_nat (length chunk))])),
      sf_write = (\<lambda>p data. if endswith p (str ''/.wav'') then Inl (str ''format not recognised'')
                            else Inr (map (\<lambda>x. if x = NaN then Num 0 else x) data)),
      exn_str = (\<lambda>e. case e of HTTPException c d \<Rightarrow> d | LibraryError x \<Rightarrow> x | _ \<Rightarrow> str ''error''),
      list_str = concat\<rparr>"

text \<open>A server with one voice \<^verbatim>\<open>"v"\<close> whose encoding is on disk, and an empty one.\<close>

definition profile_v :: profile where
  "profile_v =
     \<lparr>profile_id = str ''id0'', audio_file = str ''/app/voices/id0.wav'',
      codes_file = str ''/app/voices/id0_codes.pt'', reference_text = None,
      original_filename = str ''v.wav''\<rparr>"

definition one_voice :: "(nat, nat, sample list) server" where
  "one_voice =
     \<lparr>tts = 0,
      voice_profiles = [(str ''v'', profile_v)],
      profiles_json = [(str ''v'', profile_v)],
      disk = [str ''/app/voices/id0_codes.pt'' \<mapsto> Codes 7]\<rparr>"

definition no_voice :: "(nat, nat, sample list) server" where
  "no_voice = \<lparr>tts = 0, voice_profiles = [], profiles_json = [], disk = Map.empty\<rparr>"

text \<open>A text of 305 characters: three sentences of 100 characters.\<close>

definition long_text :: py_str where
  "long_text = str ''aaaaaaaaaaaaaaaaaaaaaaaaaaaaaaaaaaaaaaaaaaaaaaaaaaaaaaaaaaaaaaaaaaaaaaaaaaaaaaaaaaaaaaaaaaaaaaaaaaaa. bbbbbbbbbbbbbbbbbbbbbbbbbbbbbbbbbbbbbbbbbbbbbbbbbbbbbbbbbbbbbbbbbbbbbbbbbbbbbbbbbbbbbbbbbbbbbbbbbbbb! cccccccccccccccccccccccccccccccccccccccccccccccccccccccccccccccccccccccccccccccccccccccccccccccccccc?''"

definition chunk_a :: py_str where "chunk_a = str ''aaaaaaaaaaaaaaaaaaaaaaaaaaaaaaaaaaaaaaaaaaaaaaaaaaaaaaaaaaaaaaaaaaaaaaaaaaaaaaaaaaaaaaaaaaaaaaaaaaaa.''"
definition chunk_b :: py_str where "chunk_b = str ''bbbbbbbbbbbbbbbbbbbbbbbbbbbbbbbbbbbbbbbbbbbbbbbbbbbbbbbbbbbbbbbbbbbbbbbbbbbbbbbbbbbbbbbbbbbbbbbbbbbb.''"
definition chunk_c :: py_str where "chunk_c = str ''cccccccccccccccccccccccccccccccccccccccccccccccccccccccccccccccccccccccccccccccccccccccccccccccccccc.''"

section \<open>Strings: stripping and splitting\<close>

lemma not_isspace_DOT: "\<not> isspace DOT"
  by (simp add: isspace_def DOT_def)

lemma isspace_SPACE: "isspace SPACE"
  by (simp add: isspace_def SPACE_def)

lemma str_dot_space: "str ''. '' = [DOT, SPACE]"
  by (simp add: str_def DOT_def SPACE_def)

lemma lstrip_id: "s \<noteq> [] \<Longrightarrow> \<not> isspace (hd s) \<Longrightarrow> lstrip s = s"
  by (cases s) (simp_all add: lstrip_def)

lemma rstrip_snoc: "rstrip (s @ [c]) = (if isspace c then rstrip s else s @ [c])"
  by (simp add: rstrip_def)

lemma rstrip_id: "s \<noteq> [] \<Longrightarrow> \<not> isspace (last s) \<Longrightarrow> rstrip s = s"
  by (cases s rule: rev_cases) (simp_all add: rstrip_snoc)

lemma strip_id: "s \<noteq> [] \<Longrightarrow> \<not> isspace (hd s) \<Longrightarrow> \<not> isspace (last s) \<Longrightarrow> strip s = s"
  by (simp add: strip_def lstrip_id rstrip_id)

lemma rstrip_prefix: "s = rstrip s @ rev (takeWhile isspace (rev s))"
proof -
  have "rstrip s @ rev (takeWhile isspace (rev s)) =
        rev (takeWhile isspace (rev s) @ dropWhile isspace (rev s))"
    unfolding rstrip_def by (simp only: rev_append)
  also have "\<dots> = s" by (simp only: takeWhile_dropWhile_id rev_rev_ident)
  finally show ?thesis by simp
qed

lemma last_rstrip: "rstrip s \<noteq> [] \<Longrightarrow> \<not> isspace (last (rstrip s))"
  by (simp add: rstrip_def last_rev hd_dropWhile)

lemma hd_rstrip: "rstrip s \<noteq> [] \<Longrightarrow> hd (rstrip s) = hd s"
  using rstrip_prefix [of s] by (metis hd_append2)

lemma hd_lstrip: "lstrip s \<noteq> [] \<Longrightarrow> \<not> isspace (hd (lstrip s))"
  by (simp add: lstrip_def hd_dropWhile)

lemma strip_trimmed:
  assumes "strip s \<noteq> []"
  shows "\<not> isspace (hd (strip s))" and "\<not> isspace (last (strip s))"
proof -
  from assms have ne: "rstrip (lstrip s) \<noteq> []" by (simp add: strip_def)
  then have "lstrip s \<noteq> []" by (auto simp: rstrip_def)
  then have "\<not> isspace (hd (lstrip s))" by (rule hd_lstrip)
  with ne show "\<not> isspace (hd (strip s))" by (simp add: strip_def hd_rstrip)
  from ne show "\<not> isspace (last (strip s))" by (simp add: strip_def last_rstrip)
qed

lemma set_strip: "set (strip s) \<subseteq> set s"
proof -
  have "set (rstrip t) \<subseteq> set t" for t
    by (auto simp: rstrip_def dest: set_dropWhileD)
  moreover have "set (lstrip t) \<subseteq> set t" for t
    by (auto simp: lstrip_def dest: set_dropWhileD)
  ultimately show ?thesis unfolding strip_def by blast
qed

lemma strip_all_space: "\<forall>c\<in>set s. isspace c \<Longrightarrow> strip s = []"
proof -
  assume "\<forall>c\<in>set s. isspace c"
  then have "lstrip s = []" by (simp add: lstrip_def)
  then show ?thesis by (simp add: strip_def rstrip_def)
qed

lemma strip_space_prefix:
  "\<forall>c\<in>set pre. isspace c \<Longrightarrow> s \<noteq> [] \<Longrightarrow> \<not> isspace (hd s) \<Longrightarrow> \<not> isspace (last s) \<Longrightarrow> strip (pre @ s) = s"
proof -
  assume a: "\<forall>c\<in>set pre. isspace c" "s \<noteq> []" "\<not> isspace (hd s)" "\<not> isspace (last s)"
  then have "lstrip (pre @ s) = s"
    by (cases s) (simp_all add: lstrip_def dropWhile_append)
  with a show ?thesis by (simp add: strip_def rstrip_id)
qed

lemma split_from_no_sep: "sep \<notin> set s \<Longrightarrow> split_from sep cur s = [cur @ s]"
  by (induction s arbitrary: cur) auto

lemma split_from_sep:
  "sep \<notin> set a \<Longrightarrow> split_from sep cur (a @ sep # b) = (cur @ a) # split_from sep [] b"
  by (induction a arbitrary: cur) auto

lemma split_from_set:
  "p \<in> set (split_from sep cur s) \<Longrightarrow> set p \<subseteq> set cur \<union> (set s - {sep})"
proof (induction s arbitrary: cur)
  case Nil
  then show ?case by simp
next
  case (Cons c cs)
  show ?case
  proof (cases "c = sep")
    case True
    with Cons.prems have "p = cur \<or> p \<in> set (split_from sep [] cs)" by simp
    with Cons.IH [of "[]"] show ?thesis by auto
  next
    case False
    with Cons.prems have "p \<in> set (split_from sep (cur @ [c]) cs)" by simp
    from Cons.IH [OF this] False show ?thesis by auto
  qed
qed

lemma split_pieces: "p \<in> set (split sep s) \<Longrightarrow> set p \<subseteq> set s - {sep}"
  using split_from_set [of p sep "[]" s] by (simp add: split_def)

lemma sentences_good: "s \<in> set (sentences text) \<Longrightarrow> good s"
proof -
  assume "s \<in> set (sentences text)"
  then obtain p where p: "p \<in> set (split DOT (replace QMARK DOT (replace BANG DOT text)))"
    and s: "s = strip p" and ne: "s \<noteq> []"
    by (auto simp: sentences_def)
  from p have "set p \<subseteq> set (replace QMARK DOT (replace BANG DOT text)) - {DOT}"
    by (rule split_pieces)
  moreover have "BANG \<notin> set (replace QMARK DOT (replace BANG DOT text))"
    "QMARK \<notin> set (replace QMARK DOT (replace BANG DOT text))"
    by (auto simp: replace_def DOT_def BANG_def QMARK_def)
  ultimately have "DOT \<notin> set p" "BANG \<notin> set p" "QMARK \<notin> set p" by auto
  with set_strip [of p] s have "DOT \<notin> set s" "BANG \<notin> set s" "QMARK \<notin> set s" by auto
  with ne s strip_trimmed [of p] show "good s" by (simp add: good_def)
qed


lemma acc_Nil_iff: "acc g = [] \<longleftrightarrow> g = []"
  by (cases g) (simp_all add: acc_def str_dot_space)

lemma acc_snoc: "acc (g @ [s]) = acc g @ s @ str ''. ''"
  by (simp add: acc_def)

lemma acc_Cons: "acc (s # g) = s @ [DOT, SPACE] @ acc g"
  by (simp add: acc_def str_dot_space)

lemma chunk_loop_groups:
  "chunk_loop m raw (map render gs, acc g) =
     (case group_loop m (filter (\<lambda>s. s \<noteq> []) (map strip raw)) (gs, g) of
        (gs', g') \<Rightarrow> (map render gs', acc g'))"
proof (induction raw arbitrary: gs g)
  case Nil
  show ?case by simp
next
  case (Cons x raw)
  show ?case
  proof (cases "strip x = []")
    case True
    then show ?thesis using Cons.IH [of gs g] by simp
  next
    case False
    show ?thesis
    proof (cases "int (length (acc g)) + int (length (strip x)) + 2 \<le> m")
      case True
      with False Cons.IH [of gs "g @ [strip x]"] show ?thesis
        by (simp add: acc_snoc)
    next
      case le: False
      have single: "acc [strip x] = strip x @ str ''. ''" by (simp add: acc_def)
      show ?thesis
      proof (cases "g = []")
        case True
        with le False single Cons.IH [of gs "[strip x]"] show ?thesis
          by (simp add: acc_Nil_iff)
      next
        case ne: False
        with le False single Cons.IH [of "gs @ [g]" "[strip x]"] show ?thesis
          by (simp add: acc_Nil_iff render_def)
      qed
    qed
  qed
qed

lemma chunk_text_groups:
  "chunk_text text m =
     (if int (length text) \<le> m then [text]
      else if groups_of m (sentences text) \<noteq> [] then map render (groups_of m (sentences text))
      else [text])"
proof -
  obtain gs g where gl: "group_loop m (sentences text) ([], []) = (gs, g)"
    by (cases "group_loop m (sentences text) ([], [])")
  have "chunk_loop m (split DOT (replace QMARK DOT (replace BANG DOT text))) ([], []) =
        (map render gs, acc g)"
    using chunk_loop_groups [of m _ "[]" "[]"] gl
    by (simp add: acc_def sentences_def)
  with gl show ?thesis
    by (simp add: chunk_text_def groups_of_def acc_Nil_iff render_def)
qed

lemma group_loop_concat:
  "group_loop m ss (gs, g) = (gs', g') \<Longrightarrow> concat gs' @ g' = concat gs @ g @ ss"
proof (induction ss arbitrary: gs g)
  case Nil
  then show ?case by simp
next
  case (Cons s ss)
  show ?case
  proof (cases "int (length (acc g)) + int (length s) + 2 \<le> m")
    case True
    with Cons.prems have "group_loop m ss (gs, g @ [s]) = (gs', g')" by simp
    from Cons.IH [OF this] show ?thesis by simp
  next
    case False
    with Cons.prems
    have "group_loop m ss (if g \<noteq> [] then gs @ [g] else gs, [s]) = (gs', g')" by simp
    from Cons.IH [OF this] show ?thesis by simp
  qed
qed

lemma group_loop_inv:
  assumes "group_loop m ss (gs, g) = (gs', g')"
    and "\<forall>x\<in>set gs. x \<noteq> [] \<and> bnd m x"
    and "g = [] \<or> bnd m g"
  shows "(\<forall>x\<in>set gs'. x \<noteq> [] \<and> bnd m x) \<and> (g' = [] \<or> bnd m g')"
  using assms
proof (induction ss arbitrary: gs g)
  case Nil
  then show ?case by simp
next
  case (Cons s ss)
  show ?case
  proof (cases "int (length (acc g)) + int (length s) + 2 \<le> m")
    case True
    with Cons.prems(1) have gl: "group_loop m ss (gs, g @ [s]) = (gs', g')" by simp
    from True have "bnd m (g @ [s])"
      by (simp add: bnd_def acc_snoc str_dot_space)
    then have "g @ [s] = [] \<or> bnd m (g @ [s])" by (rule disjI2)
    with gl Cons.prems(2) show ?thesis by (rule Cons.IH)
  next
    case False
    let ?gs = "if g \<noteq> [] then gs @ [g] else gs"
    from False Cons.prems(1) have gl: "group_loop m ss (?gs, [s]) = (gs', g')" by simp
    have "length (acc [s]) = length s + 2"
      by (simp add: acc_def str_dot_space)
    then have "bnd m [s]"
      unfolding bnd_def by (cases "int (length s) + 2 \<le> m") simp_all
    then have b: "[s] = [] \<or> bnd m [s]" by (rule disjI2)
    from Cons.prems(2,3) have a: "\<forall>x\<in>set ?gs. x \<noteq> [] \<and> bnd m x"
      by (cases "g = []") simp_all
    from gl a b show ?thesis by (rule Cons.IH)
  qed
qed

lemma concat_groups_of: "concat (groups_of m ss) = ss"
proof -
  obtain gs g where gl: "group_loop m ss ([], []) = (gs, g)"
    by (cases "group_loop m ss ([], [])")
  from group_loop_concat [OF gl] gl show ?thesis
    by (auto simp: groups_of_def)
qed

lemma groups_of_inv: "x \<in> set (groups_of m ss) \<Longrightarrow> x \<noteq> [] \<and> bnd m x"
proof -
  assume x: "x \<in> set (groups_of m ss)"
  obtain gs g where gl: "group_loop m ss ([], []) = (gs, g)"
    by (cases "group_loop m ss ([], [])")
  from group_loop_inv [OF gl] have "(\<forall>x\<in>set gs. x \<noteq> [] \<and> bnd m x) \<and> (g = [] \<or> bnd m g)"
    by simp
  with x gl show ?thesis
    by (auto simp: groups_of_def split: if_splits)
qed

lemma groups_of_subset: "x \<in> set (groups_of m ss) \<Longrightarrow> set x \<subseteq> set ss"
proof -
  assume "x \<in> set (groups_of m ss)"
  then have "set x \<subseteq> set (concat (groups_of m ss))" by auto
  then show ?thesis by (simp only: concat_groups_of)
qed

lemma acc_joined: "g \<noteq> [] \<Longrightarrow> acc g = joined g @ [SPACE]"
  by (induction g rule: joined.induct) (simp_all add: acc_Cons acc_def str_dot_space)

lemma joined_last: "g \<noteq> [] \<Longrightarrow> joined g \<noteq> [] \<and> last (joined g) = DOT"
  by (induction g rule: joined.induct) simp_all

lemma joined_hd: "g \<noteq> [] \<Longrightarrow> hd g \<noteq> [] \<Longrightarrow> hd (joined g) = hd (hd g)"
  by (induction g rule: joined.induct) simp_all

lemma render_joined:
  assumes "g \<noteq> []" "hd g \<noteq> []" "\<not> isspace (hd (hd g))"
  shows "render g = joined g"
proof -
  from assms(1) have jl: "joined g \<noteq> []" "last (joined g) = DOT"
    using joined_last by auto
  from assms have "hd (joined g @ [SPACE]) = hd (hd g)"
    using jl by (simp add: joined_hd)
  with assms(3) have "lstrip (joined g @ [SPACE]) = joined g @ [SPACE]"
    by (simp add: lstrip_id)
  moreover have "rstrip (joined g @ [SPACE]) = joined g"
    using jl by (simp add: rstrip_snoc isspace_SPACE rstrip_id not_isspace_DOT)
  ultimately show ?thesis
    using assms(1) by (simp add: render_def strip_def acc_joined)
qed

lemma length_acc_joined: "g \<noteq> [] \<Longrightarrow> length (acc g) = Suc (length (joined g))"
  by (simp add: acc_joined)


lemma replace_id: "old \<notin> set s \<Longrightarrow> replace old new s = s"
  by (induction s) (simp_all add: replace_def)

lemma set_joined: "set (joined g) \<subseteq> (\<Union>s\<in>set g. set s) \<union> {DOT, SPACE}"
  by (induction g rule: joined.induct) auto

lemma good_all_joined:
  assumes "\<forall>s\<in>set g. good s"
  shows "BANG \<notin> set (joined g)" and "QMARK \<notin> set (joined g)"
proof -
  from assms have "BANG \<notin> (\<Union>s\<in>set g. set s)" "QMARK \<notin> (\<Union>s\<in>set g. set s)"
    by (auto simp: good_def)
  moreover have "BANG \<notin> {DOT, SPACE}" "QMARK \<notin> {DOT, SPACE}"
    by (simp_all add: BANG_def QMARK_def DOT_def SPACE_def)
  ultimately show "BANG \<notin> set (joined g)" and "QMARK \<notin> set (joined g)"
    using set_joined [of g] by blast+
qed

lemma split_joined:
  assumes "g \<noteq> []" "\<forall>s\<in>set g. good s" "\<forall>c\<in>set pre. isspace c"
  shows "filter (\<lambda>s. s \<noteq> []) (map strip (split_from DOT [] (pre @ joined g))) = g"
  using assms
proof (induction g arbitrary: pre rule: joined.induct)
  case 1
  then show ?case by simp
next
  case (2 s)
  then have g: "good s" by simp
  from "2.prems"(3) not_isspace_DOT have "DOT \<notin> set pre" by auto
  with g have "DOT \<notin> set (pre @ s)" by (simp add: good_def)
  then have "split_from DOT [] ((pre @ s) @ DOT # []) = (pre @ s) # split_from DOT [] []"
    by (rule split_from_sep [where cur = "[]", simplified])
  moreover from g "2.prems"(3) have "strip (pre @ s) = s"
    by (simp add: strip_space_prefix good_def)
  moreover have "strip [] = []" by (simp add: strip_def lstrip_def rstrip_def)
  ultimately show ?case using g by (simp add: good_def)
next
  case (3 s v va)
  then have g: "good s" by simp
  from "3.prems"(3) not_isspace_DOT have "DOT \<notin> set pre" by auto
  with g have "DOT \<notin> set (pre @ s)" by (simp add: good_def)
  then have "split_from DOT [] ((pre @ s) @ DOT # ([SPACE] @ joined (v # va))) =
             (pre @ s) # split_from DOT [] ([SPACE] @ joined (v # va))"
    by (rule split_from_sep [where cur = "[]", simplified])
  moreover from g "3.prems"(3) have "strip (pre @ s) = s"
    by (simp add: strip_space_prefix good_def)
  moreover have "filter (\<lambda>s. s \<noteq> []) (map strip (split_from DOT [] ([SPACE] @ joined (v # va)))) = v # va"
    using "3.prems"(2) by (intro "3.IH") (simp_all add: isspace_SPACE)
  ultimately show ?case using g by (simp add: good_def)
qed

lemma good_render:
  assumes "g \<noteq> []" "\<forall>s\<in>set g. good s"
  shows "render g = joined g"
proof -
  from assms have "good (hd g)" by simp
  then show ?thesis using assms(1) by (simp add: render_joined good_def)
qed

lemma sentences_render:
  assumes "g \<noteq> []" "\<forall>s\<in>set g. good s"
  shows "sentences (render g) = g"
proof -
  have "replace QMARK DOT (replace BANG DOT (joined g)) = joined g"
    using good_all_joined [OF assms(2)] by (simp add: replace_id)
  moreover have "filter (\<lambda>s. s \<noteq> []) (map strip (split_from DOT [] ([] @ joined g))) = g"
    using assms by (intro split_joined) simp_all
  ultimately show ?thesis
    using assms by (simp add: sentences_def good_render split_def)
qed

lemma groups_of_good:
  assumes "g \<in> set (groups_of m (sentences text))"
  shows "g \<noteq> []" and "\<forall>s\<in>set g. good s" and "bnd m g"
proof -
  from assms show "g \<noteq> []" "bnd m g" using groups_of_inv by blast+
  from assms have "set g \<subseteq> set (sentences text)" by (rule groups_of_subset)
  then show "\<forall>s\<in>set g. good s" using sentences_good by blast
qed

section \<open>The segmenter: claims\<close>

lemmas segmenter_eval =
  chunk_text_def sentences_def str_def split_def replace_def strip_def lstrip_def rstrip_def
  isspace_def DOT_def BANG_def QMARK_def SPACE_def

text \<open>
  C2, as the code has it. Every chunk that \<open>chunk_text\<close> returns has at most
  \<open>max_chars\<close> characters, except in two cases: the chunk is one sentence \<open>s\<close>
  followed by its full stop, and \<open>s\<close> has \<open>max_chars\<close> characters or more (so the
  sentence with its full stop is over the limit, not necessarily the sentence alone);
  or the text, longer than \<open>max_chars\<close>, has no sentence at all and comes back whole.
\<close>

theorem chunk_text_bound:
  assumes "c \<in> set (chunk_text text max_chars)"
  shows "int (length c) \<le> max_chars
       \<or> (\<exists>s\<in>set (sentences text). c = s @ [DOT] \<and> max_chars \<le> int (length s))
       \<or> (sentences text = [] \<and> c = text)"
proof (cases "int (length text) \<le> max_chars")
  case True
  with assms show ?thesis by (simp add: chunk_text_groups)
next
  case long: False
  show ?thesis
  proof (cases "groups_of max_chars (sentences text) = []")
    case True
    then have "concat (groups_of max_chars (sentences text)) = []" by simp
    then have "sentences text = []" by (simp only: concat_groups_of)
    with True long assms show ?thesis by (simp add: chunk_text_groups)
  next
    case False
    with long assms obtain g where g: "g \<in> set (groups_of max_chars (sentences text))"
      and c: "c = render g"
      by (auto simp: chunk_text_groups)
    note gg = groups_of_good [OF g]
    from gg have cj: "c = joined g" using c by (simp add: good_render)
    from gg(3) show ?thesis unfolding bnd_def
    proof
      assume "int (length (acc g)) \<le> max_chars"
      with gg(1) cj show ?thesis by (simp add: length_acc_joined)
    next
      assume "\<exists>s. g = [s] \<and> max_chars < int (length s) + 2"
      then obtain s where s: "g = [s]" "max_chars < int (length s) + 2" by blast
      with g have "s \<in> set (sentences text)" using groups_of_subset by fastforce
      moreover from s cj have "c = s @ [DOT]" by simp
      ultimately show ?thesis using s(2)
        by (cases "int (length c) \<le> max_chars") auto
    qed
  qed
qed

text \<open>
  The theorem at \<^verbatim>\<open>chunk_text("ab.c", 2)\<close> and its first chunk \<^verbatim>\<open>"ab."\<close>.
\<close>

theorem chunk_text_bound_witness:
  "str ''ab.'' \<in> set (chunk_text (str ''ab.c'') 2) \<and>
   (int (length (str ''ab.'')) \<le> 2
    \<or> (\<exists>s\<in>set (sentences (str ''ab.c'')). str ''ab.'' = s @ [DOT] \<and> 2 \<le> int (length s))
    \<or> (sentences (str ''ab.c'') = [] \<and> str ''ab.'' = str ''ab.c''))"
proof -
  have h: "str ''ab.'' \<in> set (chunk_text (str ''ab.c'') 2)"
    by (simp add: segmenter_eval)
  from h chunk_text_bound [OF h] show ?thesis by (rule conjI)
qed

text \<open>
  C2 as the specification states it fails: \<^verbatim>\<open>chunk_text("ab.c", 2)\<close> returns the chunk
  \<^verbatim>\<open>"ab."\<close> of three characters, whose only sentence \<^verbatim>\<open>"ab"\<close> has two characters
  and so does not exceed the limit alone; and \<^verbatim>\<open>chunk_text("...", 2)\<close> returns the
  three characters of the text as one chunk, where there is no sentence.
\<close>

theorem chunk_text_bound_counterexample:
  "chunk_text (str ''ab.c'') 2 = [str ''ab.'', str ''c.''] \<and>
   sentences (str ''ab.c'') = [str ''ab'', str ''c''] \<and>
   \<not> int (length (str ''ab.'')) \<le> 2 \<and>
   \<not> 2 < int (length (str ''ab'')) \<and>
   chunk_text (str ''...'') 2 = [str ''...''] \<and>
   sentences (str ''...'') = [] \<and>
   \<not> int (length (str ''...'')) \<le> 2"
  by (simp add: segmenter_eval)

text \<open>
  C3. A text of at most \<open>max_chars\<close> characters comes back as the only chunk,
  unchanged, punctuation included.
\<close>

theorem chunk_text_identity:
  "int (length text) \<le> max_chars \<Longrightarrow> chunk_text text max_chars = [text]"
  by (simp add: chunk_text_def)

theorem chunk_text_identity_witness:
  "int (length (str ''Hello world.'')) \<le> 200 \<and>
   chunk_text (str ''Hello world.'') 200 = [str ''Hello world.'']"
proof -
  have h: "int (length (str ''Hello world.'')) \<le> 200" by (simp add: str_def)
  from h chunk_text_identity [OF h] show ?thesis by (rule conjI)
qed

text \<open>
  C4. Reading the sentences back from the chunks, one chunk after the other (which
  drops the full stops and blanks that the loop appended), gives the sentences of the
  text, each once and in their order.
\<close>

theorem chunk_text_coverage:
  "concat (map sentences (chunk_text text max_chars)) = sentences text"
proof (cases "\<not> int (length text) \<le> max_chars \<and> groups_of max_chars (sentences text) \<noteq> []")
  case True
  have "map sentences (map render (groups_of max_chars (sentences text))) =
        groups_of max_chars (sentences text)"
    using groups_of_good(1,2) by (simp add: map_idI sentences_render)
  then have "concat (map sentences (map render (groups_of max_chars (sentences text)))) =
        sentences text"
    by (simp only: concat_groups_of)
  with True show ?thesis by (simp add: chunk_text_groups)
next
  case False
  then show ?thesis by (auto simp: chunk_text_groups)
qed

text \<open>
  C10. When the text is longer than \<open>max_chars\<close> and has a sentence, every chunk is
  non-empty, has no blank at either end (so stripping it changes nothing) and ends
  with a full stop.
\<close>

theorem chunk_text_shape:
  assumes "max_chars < int (length text)" and "sentences text \<noteq> []"
    and "c \<in> set (chunk_text text max_chars)"
  shows "c \<noteq> [] \<and> \<not> isspace (hd c) \<and> \<not> isspace (last c) \<and> strip c = c \<and> last c = DOT"
proof -
  have "concat (groups_of max_chars (sentences text)) \<noteq> []"
    using assms(2) by (simp only: concat_groups_of not_False_eq_True)
  then have "groups_of max_chars (sentences text) \<noteq> []" by auto
  with assms(1,3) obtain g where g: "g \<in> set (groups_of max_chars (sentences text))"
    and c: "c = render g"
    by (auto simp: chunk_text_groups)
  note gg = groups_of_good [OF g]
  from gg have cj: "c = joined g" using c by (simp add: good_render)
  from gg have "good (hd g)" by simp
  with gg(1) cj have hd: "\<not> isspace (hd c)" by (simp add: joined_hd good_def)
  from gg(1) cj have l: "c \<noteq> []" "last c = DOT" using joined_last by auto
  with hd not_isspace_DOT show ?thesis by (simp add: strip_id)
qed

theorem chunk_text_shape_witness:
  "2 < int (length (str ''ab.c'')) \<and> sentences (str ''ab.c'') \<noteq> [] \<and>
   str ''ab.'' \<in> set (chunk_text (str ''ab.c'') 2) \<and>
   (str ''ab.'' \<noteq> [] \<and> \<not> isspace (hd (str ''ab.'')) \<and> \<not> isspace (last (str ''ab.'')) \<and>
    strip (str ''ab.'') = str ''ab.'' \<and> last (str ''ab.'') = DOT)"
proof -
  have h1: "2 < int (length (str ''ab.c''))" by (simp add: str_def)
  have h2: "sentences (str ''ab.c'') \<noteq> []" by (simp add: segmenter_eval)
  have h3: "str ''ab.'' \<in> set (chunk_text (str ''ab.c'') 2)" by (simp add: segmenter_eval)
  from h1 h2 h3 chunk_text_shape [OF h1 h2 h3] show ?thesis by blast
qed

section \<open>The service: lemmas\<close>

lemma long_text_chunks: "chunk_text long_text 200 = [chunk_a, chunk_b, chunk_c]"
  by (simp add: long_text_def chunk_a_def chunk_b_def chunk_c_def segmenter_eval)

lemma chunk_text_not_Nil: "chunk_text text max_chars \<noteq> []"
  by (simp add: chunk_text_def Let_def split: prod.splits)

lemma infer_chunks_run:
  "engine_run ext ref_codes ref_text e chunks ws e' \<Longrightarrow>
   infer_chunks ext e chunks ref_codes ref_text segs = (e', Inr (segs @ ws))"
proof (induction chunks arbitrary: e ws segs)
  case Nil
  then show ?case by simp
next
  case (Cons c cs)
  from Cons.prems obtain e1 w ws' where i: "infer ext e c ref_codes ref_text = (e1, Inr w)"
    and ws: "ws = w # ws'" and r: "engine_run ext ref_codes ref_text e1 cs ws' e'"
    by (auto split: prod.splits sum.splits list.splits)
  from Cons.IH [OF r, of "segs @ [w]"] i ws show ?case by simp
qed

lemma infer_chunks_fail:
  "engine_run ext ref_codes ref_text e pre ws e1 \<Longrightarrow>
   infer ext e1 c ref_codes ref_text = (e', Inl x) \<Longrightarrow>
   infer_chunks ext e (pre @ c # post) ref_codes ref_text segs = (e', Inl (LibraryError x))"
proof (induction pre arbitrary: e ws segs)
  case Nil
  then show ?case by simp
next
  case (Cons p ps)
  from Cons.prems(1) obtain e2 w ws' where i: "infer ext e p ref_codes ref_text = (e2, Inr w)"
    and r: "engine_run ext ref_codes ref_text e2 ps ws' e1"
    by (auto split: prod.splits sum.splits list.splits)
  from Cons.IH [OF r Cons.prems(2), of "segs @ [w]"] i show ?case by simp
qed

lemma engine_run_length:
  "engine_run ext ref_codes ref_text e chunks ws e' \<Longrightarrow> length ws = length chunks"
  by (induction chunks arbitrary: e ws) (auto split: prod.splits sum.splits list.splits)

lemma concatenate_segments_concat:
  "ws \<noteq> [] \<Longrightarrow> concatenate_segments ws = Inr (concat ws)"
  by (cases ws) (auto simp: concatenate_segments_def split: list.splits)

lemma clone_voice_profiles:
  "clone_voice ext st file_name decoded uuid v_name ref_text = (st1, Inr r) \<Longrightarrow>
   voice_profiles st1 =
     AList.update v_name
       \<lparr>profile_id = uuid, audio_file = path_join VOICES_DIR (uuid @ str ''.wav''),
        codes_file = path_join VOICES_DIR (uuid @ str ''_codes.pt''),
        reference_text = ref_text, original_filename = file_name\<rparr>
       (voice_profiles st)"
  by (auto simp: clone_voice_def clone_body_def save_voice_profiles_def Let_def
           split: if_splits sum.splits prod.splits)

lemma clone_voice_profiles_cases:
  "voice_profiles (fst (clone_voice ext st file_name decoded uuid v_name ref_text)) = voice_profiles st
   \<or> (\<exists>p. voice_profiles (fst (clone_voice ext st file_name decoded uuid v_name ref_text)) =
            AList.update v_name p (voice_profiles st))"
  by (auto simp: clone_voice_def clone_body_def save_voice_profiles_def Let_def
           split: if_splits sum.splits prod.splits)

lemma delete_voice_profiles_cases:
  "voice_profiles (fst (delete_voice st v_name)) = voice_profiles st
   \<or> voice_profiles (fst (delete_voice st v_name)) = AList.delete v_name (voice_profiles st)"
  by (auto simp: delete_voice_def save_voice_profiles_def Let_def split: option.splits)

lemma generate_speech_profiles:
  "voice_profiles (fst (generate_speech ext st text v_name output_filename uuid)) = voice_profiles st"
  by (auto simp: generate_speech_def generate_body_def Let_def
           split: sum.splits prod.splits exn.splits)

lemma reachable_distinct: "reachable ext st \<Longrightarrow> distinct (map fst (voice_profiles st))"
proof (induction rule: reachable.induct)
  case (startup st)
  then show ?case .
next
  case (create st file_name decoded uuid v_name ref_text)
  with clone_voice_profiles_cases [of ext st file_name decoded uuid v_name ref_text]
  show ?case by (auto simp: distinct_update)
next
  case (delete st v_name)
  with delete_voice_profiles_cases [of st v_name]
  show ?case by (auto simp: distinct_delete)
next
  case (generate st t v_name output_filename uuid)
  then show ?case by (simp add: generate_speech_profiles)
qed

lemma filter_update_distinct:
  "distinct (map fst al) \<Longrightarrow> filter (\<lambda>kv. fst kv = k) (AList.update k v al) = [(k, v)]"
proof (induction al)
  case Nil
  then show ?case by simp
next
  case (Cons a al)
  show ?case
  proof (cases "fst a = k")
    case True
    with Cons.prems have "k \<notin> fst ` set al" by auto
    then have "filter (\<lambda>kv. fst kv = k) al = []" by (auto simp: filter_empty_conv)
    with True show ?thesis by simp
  next
    case False
    with Cons show ?thesis by simp
  qed
qed

lemma filter_distinct_le1:
  "distinct (map fst al) \<Longrightarrow> length (filter (\<lambda>kv. fst kv = k) al) \<le> 1"
proof (induction al)
  case Nil
  then show ?case by simp
next
  case (Cons a al)
  show ?case
  proof (cases "fst a = k")
    case True
    with Cons.prems have "k \<notin> fst ` set al" by auto
    then have "filter (\<lambda>kv. fst kv = k) al = []" by (auto simp: filter_empty_conv)
    with True show ?thesis by simp
  next
    case False
    with Cons show ?thesis by simp
  qed
qed

lemma list_voices_filter:
  "filter (\<lambda>e. entry_name e = n) (list_voices st) =
   map (\<lambda>(n, p). \<lparr>entry_name = n, entry_id = profile_id p,
                   entry_original_file = original_filename p,
                   entry_has_reference_text = (reference_text p \<noteq> None)\<rparr>)
     (filter (\<lambda>kv. fst kv = n) (voice_profiles st))"
  by (simp add: list_voices_def filter_map comp_def case_prod_beta)

lemma normalize_silent:
  assumes "audio \<noteq> []" and "\<forall>a\<in>set audio. a = 0"
  shows "normalize_audio audio = Inr (replicate (length audio) NaN)"
proof -
  from assms have "set (map abs audio) = {0}" by (cases audio) auto
  then have "Max (set (map abs audio)) = 0" by simp
  moreover from assms(2) have "map (\<lambda>a. np_divide a 0) audio = replicate (length audio) NaN"
    by (induction audio) (simp_all add: np_divide_def)
  ultimately show ?thesis using assms(1) by (simp add: normalize_audio_def Let_def)
qed

lemma path_join_suffix:
  assumes "a \<noteq> []" "hd a \<noteq> 47" "b \<noteq> []" "hd b \<noteq> 47"
  shows "path_join d (u @ a) = path_join d (u @ b) \<longleftrightarrow> a = b"
proof (cases u)
  case Nil
  with assms show ?thesis by (simp add: path_join_def)
next
  case (Cons c cs)
  then show ?thesis by (simp add: path_join_def)
qed

lemma voice_paths_distinct:
  "path_join VOICES_DIR (uuid @ str ''.wav'') \<noteq> path_join VOICES_DIR (uuid @ str ''_codes.pt'')"
  "path_join VOICES_DIR (uuid @ str ''.wav'') \<noteq> path_join VOICES_DIR (uuid @ str ''_temp'')"
  by (simp_all add: path_join_suffix str_def)

lemmas service_eval =
  clone_voice_def clone_body_def save_voice_profiles_def Let_def double_ext_def no_voice_def
  one_voice_def profile_v_def endswith_any_def endswith_def lower_def audio_suffixes_def
  lookup_voice_def torch_load_def normalize_audio_def np_divide_def path_join_def VOICES_DIR_def

section \<open>The service: claims\<close>

text \<open>
  C1, as the code has it. The code has no guard on the peak and no error for silent
  input: for a decoded waveform that is not empty and whose samples are all zero, the
  division of line 128 is performed, raises nothing and makes every sample \<^verbatim>\<open>nan\<close>;
  the request goes on with these samples and succeeds whenever writing the audio
  file and encoding it succeed.
\<close>

theorem clone_voice_silent_input:
  assumes "endswith_any (lower file_name) audio_suffixes"
    and "audio \<noteq> []" and "\<forall>a\<in>set audio. a = 0"
    and "sf_write ext (path_join VOICES_DIR (uuid @ str ''.wav'')) (replicate (length audio) NaN) =
           Inr written"
    and "encode_reference ext (tts st) (path_join VOICES_DIR (uuid @ str ''.wav''))
           (Some (Audio written)) = (e', Inr ref_codes)"
  shows "normalize_audio audio = Inr (replicate (length audio) NaN)
       \<and> snd (clone_voice ext st file_name (Inr audio) uuid v_name ref_text) =
           Inr \<lparr>clone_status = str ''success'',
                clone_message = str ''Voice '' @ [39] @ v_name @ [39] @ str '' cloned successfully'',
                clone_voice_id = uuid, clone_voice_name = v_name\<rparr>"
proof -
  have n: "normalize_audio audio = Inr (replicate (length audio) NaN)"
    using assms(2,3) by (rule normalize_silent)
  with assms(1,4,5) voice_paths_distinct [of uuid] show ?thesis
    by (simp add: clone_voice_def clone_body_def save_voice_profiles_def Let_def)
qed

text \<open>The theorem at two zero samples, uploaded as \<^verbatim>\<open>silence.wav\<close> to the test double.\<close>

theorem clone_voice_silent_input_witness:
  "endswith_any (lower (str ''silence.wav'')) audio_suffixes \<and>
   [0, 0] \<noteq> ([] :: rat list) \<and> set [0, 0 :: rat] = {0} \<and>
   sf_write (double_ext 0) (path_join VOICES_DIR (str ''id1'' @ str ''.wav''))
     (replicate (length [0, 0 :: rat]) NaN) = Inr [Num 0, Num 0] \<and>
   encode_reference (double_ext 0) (tts no_voice) (path_join VOICES_DIR (str ''id1'' @ str ''.wav''))
     (Some (Audio [Num 0, Num 0])) = (0, Inr 2) \<and>
   normalize_audio [0, 0] = Inr (replicate (length [0, 0 :: rat]) NaN) \<and>
   snd (clone_voice (double_ext 0) no_voice (str ''silence.wav'') (Inr [0, 0]) (str ''id1'')
          (str ''quiet'') None) =
     Inr \<lparr>clone_status = str ''success'',
          clone_message = str ''Voice '' @ [39] @ str ''quiet'' @ [39] @ str '' cloned successfully'',
          clone_voice_id = str ''id1'', clone_voice_name = str ''quiet''\<rparr>"
proof -
  have h1: "endswith_any (lower (str ''silence.wav'')) audio_suffixes"
    by (simp add: endswith_any_def endswith_def lower_def audio_suffixes_def str_def)
  have h2: "[0, 0] \<noteq> ([] :: rat list)" by simp
  have h3: "\<forall>a\<in>set [0, 0 :: rat]. a = 0" by simp
  have h3': "set [0, 0 :: rat] = {0}" by simp
  have h4: "sf_write (double_ext 0) (path_join VOICES_DIR (str ''id1'' @ str ''.wav''))
     (replicate (length [0, 0 :: rat]) NaN) = Inr [Num 0, Num 0]"
    by (simp add: double_ext_def path_join_def VOICES_DIR_def endswith_def str_def)
  have h5: "encode_reference (double_ext 0) (tts no_voice)
     (path_join VOICES_DIR (str ''id1'' @ str ''.wav'')) (Some (Audio [Num 0, Num 0])) = (0, Inr 2)"
    by (simp add: double_ext_def no_voice_def)
  from h1 h2 h3' h4 h5
    clone_voice_silent_input [OF h1 h2 h3 h4 h5, where v_name = "str ''quiet''" and ref_text = None]
  show ?thesis by blast
qed

text \<open>
  C1 as the specification states it fails: for two zero samples the normalisation
  raises nothing and returns two \<^verbatim>\<open>nan\<close> samples, and cloning from them ends in the
  success response, not in an error.
\<close>

theorem clone_voice_silent_input_counterexample:
  "normalize_audio [0, 0] = Inr [NaN, NaN] \<and>
   snd (clone_voice (double_ext 0) no_voice (str ''silence.wav'') (Inr [0, 0]) (str ''id1'')
          (str ''quiet'') None) =
     Inr \<lparr>clone_status = str ''success'',
          clone_message = str ''Voice '' @ [39] @ str ''quiet'' @ [39] @ str '' cloned successfully'',
          clone_voice_id = str ''id1'', clone_voice_name = str ''quiet''\<rparr>"
  by (simp add: normalize_audio_def np_divide_def clone_voice_def clone_body_def
        save_voice_profiles_def Let_def double_ext_def no_voice_def endswith_any_def
        endswith_def lower_def audio_suffixes_def path_join_def VOICES_DIR_def str_def)

text \<open>
  C5. After a successful \<open>clone_voice\<close> under a name, the lookup of that name gives a
  profile with the file name and the reference text that were supplied (\<open>None\<close> when
  none was); then \<open>delete_voice\<close> of the name succeeds and the lookup answers 404.
\<close>

theorem registry_round_trip:
  assumes "clone_voice ext st file_name decoded uuid v_name ref_text = (st1, Inr r)"
  shows "(\<exists>p. lookup_voice ext st1 v_name = Inr p \<and> original_filename p = file_name \<and>
              reference_text p = ref_text)
       \<and> (\<exists>st2 d. delete_voice st1 v_name = (st2, Inr d) \<and>
            lookup_voice ext st2 v_name =
              Inl (HTTPException 404
                    (str ''Voice '' @ [39] @ v_name @ [39] @ str '' not found. Available voices: '' @
                     list_str ext (map fst (voice_profiles st2)))))"
proof -
  note vp = clone_voice_profiles [OF assms]
  have m: "map_of (voice_profiles st1) v_name =
        Some \<lparr>profile_id = uuid, audio_file = path_join VOICES_DIR (uuid @ str ''.wav''),
              codes_file = path_join VOICES_DIR (uuid @ str ''_codes.pt''),
              reference_text = ref_text, original_filename = file_name\<rparr>"
    by (simp add: vp update_conv')
  then have a: "\<exists>p. lookup_voice ext st1 v_name = Inr p \<and> original_filename p = file_name \<and>
              reference_text p = ref_text"
    by (simp add: lookup_voice_def)
  obtain st2 res where d: "delete_voice st1 v_name = (st2, res)"
    by (cases "delete_voice st1 v_name")
  with m have res: "\<exists>d. res = Inr d" and vp2: "voice_profiles st2 = AList.delete v_name (voice_profiles st1)"
    by (auto simp: delete_voice_def save_voice_profiles_def Let_def)
  from vp2 have "map_of (voice_profiles st2) v_name = None"
    by (simp add: delete_conv')
  then have "lookup_voice ext st2 v_name =
              Inl (HTTPException 404
                    (str ''Voice '' @ [39] @ v_name @ [39] @ str '' not found. Available voices: '' @
                     list_str ext (map fst (voice_profiles st2))))"
    by (simp add: lookup_voice_def)
  with a d res show ?thesis by auto
qed

text \<open>The theorem for \<^verbatim>\<open>voice1\<close>, created from \<^verbatim>\<open>me.wav\<close> with a reference text.\<close>

theorem registry_round_trip_witness:
  "snd (clone_voice (double_ext 0) no_voice (str ''me.wav'') (Inr [1 / 2, - 1]) (str ''id1'')
          (str ''voice1'') (Some (str ''hello''))) =
     Inr \<lparr>clone_status = str ''success'',
          clone_message = str ''Voice '' @ [39] @ str ''voice1'' @ [39] @ str '' cloned successfully'',
          clone_voice_id = str ''id1'', clone_voice_name = str ''voice1''\<rparr> \<and>
   (\<exists>p. lookup_voice (double_ext 0)
          (fst (clone_voice (double_ext 0) no_voice (str ''me.wav'') (Inr [1 / 2, - 1]) (str ''id1'')
                 (str ''voice1'') (Some (str ''hello'')))) (str ''voice1'') = Inr p \<and>
        original_filename p = str ''me.wav'' \<and> reference_text p = Some (str ''hello'')) \<and>
   (\<exists>st2 d. delete_voice
          (fst (clone_voice (double_ext 0) no_voice (str ''me.wav'') (Inr [1 / 2, - 1]) (str ''id1'')
                 (str ''voice1'') (Some (str ''hello'')))) (str ''voice1'') = (st2, Inr d) \<and>
        lookup_voice (double_ext 0) st2 (str ''voice1'') =
          Inl (HTTPException 404
                (str ''Voice '' @ [39] @ str ''voice1'' @ [39] @
                 str '' not found. Available voices: '' @
                 list_str (double_ext 0) (map fst (voice_profiles st2)))))"
proof -
  have s: "snd (clone_voice (double_ext 0) no_voice (str ''me.wav'') (Inr [1 / 2, - 1]) (str ''id1'')
          (str ''voice1'') (Some (str ''hello''))) =
     Inr \<lparr>clone_status = str ''success'',
          clone_message = str ''Voice '' @ [39] @ str ''voice1'' @ [39] @ str '' cloned successfully'',
          clone_voice_id = str ''id1'', clone_voice_name = str ''voice1''\<rparr>"
    by (simp add: service_eval str_def)
  then have h: "clone_voice (double_ext 0) no_voice (str ''me.wav'') (Inr [1 / 2, - 1]) (str ''id1'')
          (str ''voice1'') (Some (str ''hello'')) =
     (fst (clone_voice (double_ext 0) no_voice (str ''me.wav'') (Inr [1 / 2, - 1]) (str ''id1'')
          (str ''voice1'') (Some (str ''hello''))),
      Inr \<lparr>clone_status = str ''success'',
          clone_message = str ''Voice '' @ [39] @ str ''voice1'' @ [39] @ str '' cloned successfully'',
          clone_voice_id = str ''id1'', clone_voice_name = str ''voice1''\<rparr>)"
    by (simp add: prod_eq_iff)
  from s registry_round_trip [OF h] show ?thesis by (rule conjI)
qed

text \<open>
  C6. In every state reachable from startup, \<open>list_voices\<close> has at most one entry for
  each name; and after two successful \<open>clone_voice\<close> requests with the same name the
  list has exactly one entry for that name, with the identifier, the file name and
  the reference-text flag of the second request.
\<close>

theorem registry_overwrite:
  assumes "reachable ext st"
    and "clone_voice ext st file_name1 decoded1 uuid1 v_name ref_text1 = (st1, Inr r1)"
    and "clone_voice ext st1 file_name2 decoded2 uuid2 v_name ref_text2 = (st2, Inr r2)"
  shows "(\<forall>n. length (filter (\<lambda>e. entry_name e = n) (list_voices st)) \<le> 1)
       \<and> (\<forall>n. length (filter (\<lambda>e. entry_name e = n) (list_voices st1)) \<le> 1)
       \<and> (\<forall>n. length (filter (\<lambda>e. entry_name e = n) (list_voices st2)) \<le> 1)
       \<and> filter (\<lambda>e. entry_name e = v_name) (list_voices st2) =
           [\<lparr>entry_name = v_name, entry_id = uuid2, entry_original_file = file_name2,
             entry_has_reference_text = (ref_text2 \<noteq> None)\<rparr>]"
proof -
  have r1: "reachable ext st1"
    using reachable.create [OF assms(1), of file_name1 decoded1 uuid1 v_name ref_text1] assms(2)
    by simp
  have r2: "reachable ext st2"
    using reachable.create [OF r1, of file_name2 decoded2 uuid2 v_name ref_text2] assms(3)
    by simp
  have le: "\<forall>n. length (filter (\<lambda>e. entry_name e = n) (list_voices s)) \<le> 1"
    if "reachable ext s" for s
    using filter_distinct_le1 [OF reachable_distinct [OF that]] by (simp add: list_voices_filter)
  have "filter (\<lambda>kv. fst kv = v_name) (voice_profiles st2) =
        [(v_name, \<lparr>profile_id = uuid2, audio_file = path_join VOICES_DIR (uuid2 @ str ''.wav''),
                    codes_file = path_join VOICES_DIR (uuid2 @ str ''_codes.pt''),
                    reference_text = ref_text2, original_filename = file_name2\<rparr>)]"
    using clone_voice_profiles [OF assms(3)] reachable_distinct [OF r1]
    by (simp add: filter_update_distinct)
  then have "filter (\<lambda>e. entry_name e = v_name) (list_voices st2) =
           [\<lparr>entry_name = v_name, entry_id = uuid2, entry_original_file = file_name2,
             entry_has_reference_text = (ref_text2 \<noteq> None)\<rparr>]"
    by (simp add: list_voices_filter)
  with le [OF assms(1)] le [OF r1] le [OF r2] show ?thesis by blast
qed

text \<open>The theorem for two requests that both name the voice \<^verbatim>\<open>voice1\<close>.\<close>

theorem registry_overwrite_witness:
  "reachable (double_ext 0) no_voice \<and>
   snd (clone_voice (double_ext 0) no_voice (str ''me.wav'') (Inr [1]) (str ''id1'')
          (str ''voice1'') None) =
     Inr \<lparr>clone_status = str ''success'',
          clone_message = str ''Voice '' @ [39] @ str ''voice1'' @ [39] @ str '' cloned successfully'',
          clone_voice_id = str ''id1'', clone_voice_name = str ''voice1''\<rparr> \<and>
   snd (clone_voice (double_ext 0)
          (fst (clone_voice (double_ext 0) no_voice (str ''me.wav'') (Inr [1]) (str ''id1'')
                 (str ''voice1'') None))
          (str ''again.mp3'') (Inr [1]) (str ''id2'') (str ''voice1'') (Some (str ''hello''))) =
     Inr \<lparr>clone_status = str ''success'',
          clone_message = str ''Voice '' @ [39] @ str ''voice1'' @ [39] @ str '' cloned successfully'',
          clone_voice_id = str ''id2'', clone_voice_name = str ''voice1''\<rparr> \<and>
   list_voices
     (fst (clone_voice (double_ext 0)
            (fst (clone_voice (double_ext 0) no_voice (str ''me.wav'') (Inr [1]) (str ''id1'')
                   (str ''voice1'') None))
            (str ''again.mp3'') (Inr [1]) (str ''id2'') (str ''voice1'') (Some (str ''hello'')))) =
     [\<lparr>entry_name = str ''voice1'', entry_id = str ''id2'',
       entry_original_file = str ''again.mp3'', entry_has_reference_text = True\<rparr>]"
proof -
  let ?st1 = "fst (clone_voice (double_ext 0) no_voice (str ''me.wav'') (Inr [1]) (str ''id1'')
                 (str ''voice1'') None)"
  let ?st2 = "fst (clone_voice (double_ext 0) ?st1
            (str ''again.mp3'') (Inr [1]) (str ''id2'') (str ''voice1'') (Some (str ''hello'')))"
  let ?r1 = "\<lparr>clone_status = str ''success'',
          clone_message = str ''Voice '' @ [39] @ str ''voice1'' @ [39] @ str '' cloned successfully'',
          clone_voice_id = str ''id1'', clone_voice_name = str ''voice1''\<rparr>"
  let ?r2 = "\<lparr>clone_status = str ''success'',
          clone_message = str ''Voice '' @ [39] @ str ''voice1'' @ [39] @ str '' cloned successfully'',
          clone_voice_id = str ''id2'', clone_voice_name = str ''voice1''\<rparr>"
  have h1: "reachable (double_ext 0) no_voice"
    by (rule reachable.startup) (simp add: no_voice_def)
  have s1: "snd (clone_voice (double_ext 0) no_voice (str ''me.wav'') (Inr [1]) (str ''id1'')
          (str ''voice1'') None) = Inr ?r1"
    by (simp add: service_eval str_def)
  then have h2: "clone_voice (double_ext 0) no_voice (str ''me.wav'') (Inr [1]) (str ''id1'')
          (str ''voice1'') None = (?st1, Inr ?r1)"
    by (simp add: prod_eq_iff)
  have vp1: "voice_profiles ?st1 =
     [(str ''voice1'',
       \<lparr>profile_id = str ''id1'', audio_file = path_join VOICES_DIR (str ''id1'' @ str ''.wav''),
        codes_file = path_join VOICES_DIR (str ''id1'' @ str ''_codes.pt''),
        reference_text = None, original_filename = str ''me.wav''\<rparr>)]"
    using clone_voice_profiles [OF h2] by (simp add: no_voice_def)
  have t1: "tts ?st1 = 0"
    by (simp add: service_eval str_def)
  have s2: "snd (clone_voice (double_ext 0) ?st1
          (str ''again.mp3'') (Inr [1]) (str ''id2'') (str ''voice1'') (Some (str ''hello''))) = Inr ?r2"
    by (simp add: service_eval str_def)
  then have h3: "clone_voice (double_ext 0) ?st1
          (str ''again.mp3'') (Inr [1]) (str ''id2'') (str ''voice1'') (Some (str ''hello'')) =
       (?st2, Inr ?r2)"
    by (simp add: prod_eq_iff)
  have vp2: "map fst (voice_profiles ?st2) = [str ''voice1'']"
    using clone_voice_profiles [OF h3] vp1 by simp
  then have single: "list_voices ?st2 = filter (\<lambda>e. entry_name e = str ''voice1'') (list_voices ?st2)"
    by (cases "voice_profiles ?st2") (auto simp: list_voices_def)
  from registry_overwrite [OF h1 h2 h3] single
  have "list_voices ?st2 =
     [\<lparr>entry_name = str ''voice1'', entry_id = str ''id2'',
       entry_original_file = str ''again.mp3'', entry_has_reference_text = True\<rparr>]"
    by simp
  with h1 s1 s2 show ?thesis by blast
qed

text \<open>
  C7. The text splits into the chunks \<open>pre @ chunk # post\<close>; the engine returns a
  waveform for each chunk of \<open>pre\<close> and raises on \<open>chunk\<close>. Then the request ends in
  the 500 error that carries the engine's message (the code's form of an engine
  error), no later chunk is tried, and nothing is written: the files are those of
  before, the waveforms of \<open>pre\<close> are dropped.
\<close>

theorem generate_speech_all_or_nothing:
  assumes "lookup_voice ext st v_name = Inr p"
    and "torch_load st (codes_file p) = Inr ref_codes"
    and "chunk_text text 200 = pre @ chunk # post"
    and "engine_run ext ref_codes (reference_text p) (tts st) pre ws e1"
    and "infer ext e1 chunk ref_codes (reference_text p) = (e', Inl x)"
  shows "generate_speech ext st text v_name output_filename uuid =
           (st\<lparr>tts := e'\<rparr>,
            Inl (HTTPException 500 (str ''Error generating speech: '' @ exn_str ext (LibraryError x))))
         \<and> disk (fst (generate_speech ext st text v_name output_filename uuid)) = disk st"
proof -
  from assms(4,5) have
    "infer_chunks ext (tts st) (pre @ chunk # post) ref_codes (reference_text p) [] =
       (e', Inl (LibraryError x))"
    by (rule infer_chunks_fail)
  with assms(1,2,3) show ?thesis
    by (simp add: generate_speech_def generate_body_def)
qed

text \<open>The theorem for three chunks and a test double that raises on its second call.\<close>

theorem generate_speech_all_or_nothing_witness:
  "lookup_voice (double_ext 2) one_voice (str ''v'') = Inr profile_v \<and>
   torch_load one_voice (codes_file profile_v) = Inr 7 \<and>
   chunk_text long_text 200 = [chunk_a] @ chunk_b # [chunk_c] \<and>
   engine_run (double_ext 2) 7 (reference_text profile_v) (tts one_voice) [chunk_a]
     [[Num 1, Num 101]] 1 \<and>
   infer (double_ext 2) 1 chunk_b 7 (reference_text profile_v) = (2, Inl (str ''engine failure'')) \<and>
   generate_speech (double_ext 2) one_voice long_text (str ''v'') None (str ''out'') =
     (one_voice\<lparr>tts := 2\<rparr>,
      Inl (HTTPException 500
            (str ''Error generating speech: '' @
             exn_str (double_ext 2) (LibraryError (str ''engine failure''))))) \<and>
   disk (fst (generate_speech (double_ext 2) one_voice long_text (str ''v'') None (str ''out''))) =
     disk one_voice"
proof -
  have h1: "lookup_voice (double_ext 2) one_voice (str ''v'') = Inr profile_v"
    by (simp add: lookup_voice_def one_voice_def)
  have h2: "torch_load one_voice (codes_file profile_v) = Inr 7"
    by (simp add: torch_load_def one_voice_def profile_v_def)
  have h3: "chunk_text long_text 200 = [chunk_a] @ chunk_b # [chunk_c]"
    by (simp add: long_text_chunks)
  have len: "length chunk_a = 101"
    by (simp add: chunk_a_def str_def)
  have h4: "engine_run (double_ext 2) 7 (reference_text profile_v) (tts one_voice) [chunk_a]
     [[Num 1, Num 101]] 1"
    by (simp add: double_ext_def one_voice_def len)
  have h5: "infer (double_ext 2) 1 chunk_b 7 (reference_text profile_v) =
     (2, Inl (str ''engine failure''))"
    by (simp add: double_ext_def)
  from h1 h2 h3 h4 h5 generate_speech_all_or_nothing [OF h1 h2 h3 h4 h5] show ?thesis by blast
qed

text \<open>
  C8. When the engine returns the waveforms \<open>ws\<close> for the chunks of the text, in
  order, the output waveform, which is what line 248 hands to \<open>sf_write\<close>, is exactly
  \<open>concat ws\<close>: the samples of the first chunk, then those of the second, and so on,
  nothing between them. The request ends with the file that \<open>sf_write\<close> made of this
  waveform, or with the 500 of the handler when \<open>sf_write\<close> raises on it.
\<close>

theorem generate_speech_concatenation:
  assumes "lookup_voice ext st v_name = Inr p"
    and "torch_load st (codes_file p) = Inr ref_codes"
    and "engine_run ext ref_codes (reference_text p) (tts st) (chunk_text text 200) ws e'"
  shows "generate_speech ext st text v_name output_filename uuid =
           (case sf_write ext (path_join OUTPUTS_DIR (output_name output_filename uuid)) (concat ws) of
              Inl x \<Rightarrow>
                (st\<lparr>tts := e'\<rparr>,
                 Inl (HTTPException 500
                       (str ''Error generating speech: '' @ exn_str ext (LibraryError x))))
            | Inr written \<Rightarrow>
                (st\<lparr>tts := e',
                    disk := (disk st)(path_join OUTPUTS_DIR (output_name output_filename uuid)
                                        \<mapsto> Audio written)\<rparr>,
                 Inr \<lparr>response_path = path_join OUTPUTS_DIR (output_name output_filename uuid),
                      response_media_type = str ''audio/wav'',
                      response_filename = output_name output_filename uuid\<rparr>))"
proof -
  from assms(3) have "length ws = length (chunk_text text 200)" by (rule engine_run_length)
  then have "ws \<noteq> []" using chunk_text_not_Nil [where max_chars = 200] by auto
  then have c: "concatenate_segments ws = Inr (concat ws)" by (rule concatenate_segments_concat)
  from assms(3) have
    "infer_chunks ext (tts st) (chunk_text text 200) ref_codes (reference_text p) [] = (e', Inr ws)"
    using infer_chunks_run [where segs = "[]"] by fastforce
  with assms(1,2) c show ?thesis
    by (simp add: generate_speech_def generate_body_def Let_def split: sum.splits)
qed

text \<open>
  The theorem for three chunks and a test double whose waveforms tell the call number.
\<close>

theorem generate_speech_concatenation_witness:
  "lookup_voice (double_ext 0) one_voice (str ''v'') = Inr profile_v \<and>
   torch_load one_voice (codes_file profile_v) = Inr 7 \<and>
   engine_run (double_ext 0) 7 (reference_text profile_v) (tts one_voice)
     (chunk_text long_text 200)
     [[Num 1, Num 101], [Num 2, Num 101], [Num 3, Num 101]] 3 \<and>
   sf_write (double_ext 0) (path_join OUTPUTS_DIR (output_name None (str ''out'')))
     (concat [[Num 1, Num 101], [Num 2, Num 101], [Num 3, Num 101]]) =
     Inr [Num 1, Num 101, Num 2, Num 101, Num 3, Num 101] \<and>
   generate_speech (double_ext 0) one_voice long_text (str ''v'') None (str ''out'') =
     (one_voice\<lparr>tts := 3,
        disk := (disk one_voice)(path_join OUTPUTS_DIR (output_name None (str ''out''))
                  \<mapsto> Audio [Num 1, Num 101, Num 2, Num 101, Num 3, Num 101])\<rparr>,
      Inr \<lparr>response_path = path_join OUTPUTS_DIR (output_name None (str ''out'')),
           response_media_type = str ''audio/wav'',
           response_filename = output_name None (str ''out'')\<rparr>)"
proof -
  have h1: "lookup_voice (double_ext 0) one_voice (str ''v'') = Inr profile_v"
    by (simp add: lookup_voice_def one_voice_def)
  have h2: "torch_load one_voice (codes_file profile_v) = Inr 7"
    by (simp add: torch_load_def one_voice_def profile_v_def)
  have len: "length chunk_a = 101" "length chunk_b = 101" "length chunk_c = 101"
    by (simp_all add: chunk_a_def chunk_b_def chunk_c_def str_def)
  have h3: "engine_run (double_ext 0) 7 (reference_text profile_v) (tts one_voice)
     (chunk_text long_text 200)
     [[Num 1, Num 101], [Num 2, Num 101], [Num 3, Num 101]] 3"
    by (simp add: long_text_chunks double_ext_def one_voice_def len)
  have w: "sf_write (double_ext 0) (path_join OUTPUTS_DIR (output_name None (str ''out'')))
     (concat [[Num 1, Num 101], [Num 2, Num 101], [Num 3, Num 101]]) =
     Inr [Num 1, Num 101, Num 2, Num 101, Num 3, Num 101]"
    by (simp add: double_ext_def path_join_def OUTPUTS_DIR_def output_name_def endswith_def str_def)
  from generate_speech_concatenation [OF h1 h2 h3, where output_filename = None
      and uuid = "str ''out''"] w
  have "generate_speech (double_ext 0) one_voice long_text (str ''v'') None (str ''out'') =
     (one_voice\<lparr>tts := 3,
        disk := (disk one_voice)(path_join OUTPUTS_DIR (output_name None (str ''out''))
                  \<mapsto> Audio [Num 1, Num 101, Num 2, Num 101, Num 3, Num 101])\<rparr>,
      Inr \<lparr>response_path = path_join OUTPUTS_DIR (output_name None (str ''out'')),
           response_media_type = str ''audio/wav'',
           response_filename = output_name None (str ''out'')\<rparr>)"
    by simp
  with h1 h2 h3 w show ?thesis by blast
qed

text \<open>
  C9. A file name that, in lower case, ends with none of the five accepted suffixes is
  rejected, and the rejection leaves \<open>clone_voice\<close> as a 500 whose detail wraps the
  text of the 400 raised inside the \<^verbatim>\<open>try\<close>; the state is unchanged.
\<close>

theorem clone_voice_bad_extension:
  assumes "\<not> endswith_any (lower file_name) audio_suffixes"
  shows "clone_voice ext st file_name decoded uuid v_name ref_text =
           (st, Inl (HTTPException 500
                       (str ''Error cloning voice: '' @
                        exn_str ext (HTTPException 400
                          (str ''Only audio files are supported (wav, mp3, flac, ogg, webm)'')))))"
  using assms by (simp add: clone_voice_def clone_body_def)

text \<open>The theorem for the upload \<^verbatim>\<open>notes.TXT\<close>.\<close>

theorem clone_voice_bad_extension_witness:
  "\<not> endswith_any (lower (str ''notes.TXT'')) audio_suffixes \<and>
   clone_voice (double_ext 0) no_voice (str ''notes.TXT'') (Inr [1]) (str ''id1'') (str ''voice1'') None =
     (no_voice, Inl (HTTPException 500
                       (str ''Error cloning voice: '' @
                        exn_str (double_ext 0) (HTTPException 400
                          (str ''Only audio files are supported (wav, mp3, flac, ogg, webm)'')))))"
proof -
  have h: "\<not> endswith_any (lower (str ''notes.TXT'')) audio_suffixes"
    by (simp add: endswith_any_def endswith_def lower_def audio_suffixes_def str_def)
  from h clone_voice_bad_extension [OF h] show ?thesis by (rule conjI)
qed

end
